theory Spec2Isabelle
  imports Complex_Main "HOL-Library.AList" "HOL-Library.Multiset"
begin

section \<open>Credit card portfolio optimizer: the valuation engine of creditvaluation.py\<close>

text \<open>
  The engine works on JSON-like dictionaries. Currency amounts, multipliers and point
  values are Python numbers; they are modelled as exact rationals (\<open>0.01\<close> is \<open>1/100\<close>,
  \<open>-1e12\<close> is \<open>- (10 ^ 12)\<close>), so rounding of binary floating point is outside the model.
  A dictionary is an association list read with \<open>map_of\<close> (the spending profile, which
  \<open>items()\<close> iterates; a card's rewards) and written with \<open>AList.update\<close> (the assignment
  and the ledger, which are returned), which overwrites in place or appends at the end as a
  Python \<open>dict\<close> does; the rebate usage state and the local \<open>remaining_spend\<close>, which are
  only looked up and updated, are maps.
  A key read with \<open>d["k"]\<close> is a field; a key read with \<open>d.get("k", default)\<close> is an
  optional field.
\<close>

subsection \<open>Data model\<close>

datatype error = KeyError string

text \<open>
  A rebate dictionary is tagged by its \<open>"type"\<close>: \<open>"category"\<close> (category, amount,
  optional description), \<open>"flat"\<close> (amount, optional description), or any other tag,
  which both loops of \<open>apply_rebates\<close> skip.
\<close>

datatype rebate =
    Category_rebate string rat "string option"
  | Flat_rebate rat "string option"
  | Other_rebate string

record card =
  name :: string
  rewards :: "(string \<times> rat) list"
  point_value :: "rat option"
  annual_fee :: "rat option"
  rebates :: "rebate list option"

record ledger_entry =
  idx :: nat
  description :: string
  is_category :: bool
  used :: rat
  amount :: rat
  applied :: bool

type_synonym spending = "(string \<times> rat) list"
type_synonym rebate_usage = "string \<rightharpoonup> (nat \<rightharpoonup> bool)"
type_synonym details = "(string \<times> ledger_entry list) list"
type_synonym assignment = "(string \<times> (string option \<times> rat)) list"

definition categories :: "string list" where
  "categories = [''groceries'', ''dining'', ''flights_portal'', ''hotel'', ''gas'',
     ''online_shopping'', ''other'']"

definition card_point_value :: "card \<Rightarrow> rat" where
  "card_point_value c = (case point_value c of None \<Rightarrow> 1 / 100 | Some v \<Rightarrow> v)"

definition card_annual_fee :: "card \<Rightarrow> rat" where
  "card_annual_fee c = (case annual_fee c of None \<Rightarrow> 0 | Some v \<Rightarrow> v)"

definition card_rebates :: "card \<Rightarrow> rebate list" where
  "card_rebates c = (case rebates c of None \<Rightarrow> [] | Some rs \<Rightarrow> rs)"

subsection \<open>Rate resolver: \<open>get_reward_rate\<close>\<close>

definition category_map :: "(string \<times> string list) list" where
  "category_map =
    [(''groceries'', [''groceries'', ''supermarkets'', ''online_grocery'']),
     (''dining'', [''dining'', ''restaurants'']),
     (''flights_portal'', [''flights_portal'', ''flights'', ''travel_portal'', ''other_travel'']),
     (''hotel'', [''hotel'', ''hotels_portal'', ''lodging'', ''travel_portal'']),
     (''gas'', [''gas'', ''transport'', ''transit'']),
     (''online_shopping'', [''online_shopping'', ''top'', ''other'']),
     (''other'', [''other''])]"

definition keys_to_try :: "string \<Rightarrow> string list" where
  "keys_to_try category =
     (case map_of category_map category of None \<Rightarrow> [''other''] | Some ks \<Rightarrow> ks) @ [''all'']"

text \<open>The \<open>for key in keys_to_try\<close> loop: the first key present wins, else 1.\<close>

fun try_keys :: "string list \<Rightarrow> (string \<times> rat) list \<Rightarrow> rat" where
  "try_keys [] rw = 1"
| "try_keys (key # ks) rw = (case map_of rw key of Some v \<Rightarrow> v | None \<Rightarrow> try_keys ks rw)"

definition get_reward_rate :: "card \<Rightarrow> string \<Rightarrow> rat" where
  "get_reward_rate c category = try_keys (keys_to_try category) (rewards c)"

subsection \<open>Rebate resolver: \<open>apply_rebates\<close>\<close>

text \<open>An element of \<open>category_rebates\<close>: (category, amount, card, idx, rebate).\<close>

type_synonym cat_rebate = "string \<times> rat \<times> card \<times> nat \<times> rebate"

fun gather_card :: "card \<Rightarrow> (nat \<times> rebate) list \<Rightarrow> cat_rebate list" where
  "gather_card c [] = []"
| "gather_card c ((i, r) # rest) =
     (case r of
        Category_rebate cat amt d \<Rightarrow> (cat, amt, c, i, r) # gather_card c rest
      | _ \<Rightarrow> gather_card c rest)"

definition gather_category_rebates :: "card list \<Rightarrow> cat_rebate list" where
  "gather_category_rebates cards =
     concat (map (\<lambda>c. gather_card c (enumerate 0 (card_rebates c))) cards)"

text \<open>\<open>category_rebates.sort(key=lambda x: -x[1])\<close>: a stable sort, ascending in the key.\<close>

definition sort_category_rebates :: "cat_rebate list \<Rightarrow> cat_rebate list" where
  "sort_category_rebates rs = sort_key (\<lambda>x. - fst (snd x)) rs"

definition rebate_description :: "rebate \<Rightarrow> string \<Rightarrow> string" where
  "rebate_description r dflt =
     (case r of
        Category_rebate cat amt d \<Rightarrow> (case d of None \<Rightarrow> dflt | Some s \<Rightarrow> s)
      | Flat_rebate amt d \<Rightarrow> (case d of None \<Rightarrow> dflt | Some s \<Rightarrow> s)
      | Other_rebate t \<Rightarrow> dflt)"

text \<open>\<open>per_card_details.setdefault(n, [])\<close> and \<open>per_card_details.setdefault(n, []).append(e)\<close>.\<close>

definition setdefault_empty :: "string \<Rightarrow> details \<Rightarrow> details" where
  "setdefault_empty n d = (case map_of d n of None \<Rightarrow> d @ [(n, [])] | Some es \<Rightarrow> d)"

definition append_detail :: "string \<Rightarrow> ledger_entry \<Rightarrow> details \<Rightarrow> details" where
  "append_detail n e d =
     AList.update n ((case map_of d n of None \<Rightarrow> [] | Some es \<Rightarrow> es) @ [e]) d"

definition category_entry :: "nat \<Rightarrow> rebate \<Rightarrow> rat \<Rightarrow> rat \<Rightarrow> ledger_entry" where
  "category_entry i r u amt =
     \<lparr>idx = i, description = rebate_description r ''Category Rebate'', is_category = True,
      used = u, amount = amt, applied = (u > 0)\<rparr>"

text \<open>
  The loop over the sorted category rebates, on the state
  (\<open>remaining_spend\<close>, \<open>total_rebate\<close>, \<open>per_card_details\<close>).
  \<open>remaining_spend.get(cat, 0.0)\<close> tolerates a missing key, the update
  \<open>remaining_spend[cat] -= used\<close> reads the key and raises \<open>KeyError\<close> when it is missing.
\<close>

fun apply_category_rebates ::
  "cat_rebate list \<Rightarrow> (string \<rightharpoonup> rat) \<Rightarrow> rat \<Rightarrow> details
     \<Rightarrow> error + ((string \<rightharpoonup> rat) \<times> rat \<times> details)" where
  "apply_category_rebates [] remaining_spend total_rebate per_card_details =
     Inr (remaining_spend, total_rebate, per_card_details)"
| "apply_category_rebates ((cat, amt, c, i, r) # rest) remaining_spend total_rebate
       per_card_details =
     (let spent = (case remaining_spend cat of None \<Rightarrow> 0 | Some v \<Rightarrow> v);
          u = min spent amt
      in case remaining_spend cat of
           None \<Rightarrow> Inl (KeyError cat)
         | Some v \<Rightarrow>
             apply_category_rebates rest (remaining_spend(cat \<mapsto> v - u)) (total_rebate + u)
               (append_detail (name c) (category_entry i r u amt) per_card_details))"

definition used_flag :: "rebate_usage \<Rightarrow> string \<Rightarrow> nat \<Rightarrow> bool" where
  "used_flag usage n i =
     (case usage n of
        None \<Rightarrow> True
      | Some m \<Rightarrow> (case m i of None \<Rightarrow> True | Some b \<Rightarrow> b))"

definition flat_entry :: "nat \<Rightarrow> rebate \<Rightarrow> rat \<Rightarrow> bool \<Rightarrow> ledger_entry" where
  "flat_entry i r amt flag =
     \<lparr>idx = i, description = rebate_description r ''Flat Rebate'', is_category = False,
      used = (if flag then amt else 0), amount = amt, applied = flag\<rparr>"

text \<open>The inner loop of the flat-rebate pass, over \<open>enumerate(card.get("rebates", []))\<close>.\<close>

fun apply_flat_card ::
  "rebate_usage \<Rightarrow> string \<Rightarrow> (nat \<times> rebate) list \<Rightarrow> rat \<Rightarrow> details \<Rightarrow> rat \<times> details" where
  "apply_flat_card usage n [] total_rebate per_card_details = (total_rebate, per_card_details)"
| "apply_flat_card usage n ((i, r) # rest) total_rebate per_card_details =
     (case r of
        Flat_rebate amt d \<Rightarrow>
          (let flag = used_flag usage n i
           in apply_flat_card usage n rest (if flag then total_rebate + amt else total_rebate)
                (append_detail n (flat_entry i r amt flag) per_card_details))
      | _ \<Rightarrow> apply_flat_card usage n rest total_rebate per_card_details)"

fun apply_flat_rebates ::
  "rebate_usage \<Rightarrow> card list \<Rightarrow> rat \<Rightarrow> details \<Rightarrow> rat \<times> details" where
  "apply_flat_rebates usage [] total_rebate per_card_details = (total_rebate, per_card_details)"
| "apply_flat_rebates usage (c # cs) total_rebate per_card_details =
     (case apply_flat_card usage (name c) (enumerate 0 (card_rebates c)) total_rebate
             (setdefault_empty (name c) per_card_details) of
        (t, d) \<Rightarrow> apply_flat_rebates usage cs t d)"

definition apply_rebates ::
  "card list \<Rightarrow> spending \<Rightarrow> rebate_usage \<Rightarrow> error + (rat \<times> details)" where
  "apply_rebates cards annual_spending usage =
     (case apply_category_rebates (sort_category_rebates (gather_category_rebates cards))
             (map_of annual_spending) 0 [] of
        Inl e \<Rightarrow> Inl e
      | Inr (remaining_spend, total_rebate, per_card_details) \<Rightarrow>
          Inr (apply_flat_rebates usage cards total_rebate per_card_details))"

subsection \<open>Portfolio evaluator: \<open>evaluate_portfolio\<close>\<close>

text \<open>The inner loop \<open>for card in cards\<close> on (\<open>best_val\<close>, \<open>best_card\<close>), started at (0, None).\<close>

fun best_card_loop ::
  "card list \<Rightarrow> string \<Rightarrow> rat \<Rightarrow> rat \<times> string option \<Rightarrow> rat \<times> string option" where
  "best_card_loop [] cat spend best = best"
| "best_card_loop (c # cs) cat spend (best_val, best_card) =
     (let rate = get_reward_rate c cat;
          val = rate * spend * card_point_value c
      in if val > best_val then best_card_loop cs cat spend (val, Some (name c))
         else best_card_loop cs cat spend (best_val, best_card))"

text \<open>The outer loop \<open>for cat, spend in annual_spending.items()\<close> on (\<open>total_rewards\<close>, \<open>assignment\<close>).\<close>

fun rewards_loop ::
  "spending \<Rightarrow> card list \<Rightarrow> rat \<Rightarrow> assignment \<Rightarrow> rat \<times> assignment" where
  "rewards_loop [] cards total_rewards asg = (total_rewards, asg)"
| "rewards_loop ((cat, spend) # rest) cards total_rewards asg =
     (case best_card_loop cards cat spend (0, None) of
        (best_val, best_card) \<Rightarrow>
          rewards_loop rest cards (total_rewards + best_val)
            (AList.update cat (best_card, best_val) asg))"

text \<open>Returns (\<open>total_net\<close>, \<open>assignment\<close>, \<open>per_card_details\<close>, \<open>total_rewards\<close>, \<open>fees\<close>).\<close>

definition evaluate_portfolio ::
  "card list \<Rightarrow> spending \<Rightarrow> rebate_usage
     \<Rightarrow> error + (rat \<times> assignment \<times> details \<times> rat \<times> rat)" where
  "evaluate_portfolio cards annual_spending usage =
     (case rewards_loop annual_spending cards 0 [] of
        (total_rewards, asg) \<Rightarrow>
          (case apply_rebates cards annual_spending usage of
             Inl e \<Rightarrow> Inl e
           | Inr (total_rebates, per_card_details) \<Rightarrow>
               (let fees = sum_list (map card_annual_fee cards);
                    total_net = total_rewards + total_rebates - fees
                in Inr (total_net, asg, per_card_details, total_rewards, fees))))"

subsection \<open>Approximate card scorer: \<open>_score_card_approx\<close>\<close>

fun score_alias_loop :: "string list \<Rightarrow> (string \<times> rat) list \<Rightarrow> rat" where
  "score_alias_loop [] rw = 1"
| "score_alias_loop (alias # rest) rw =
     (case map_of rw alias of Some v \<Rightarrow> v | None \<Rightarrow> score_alias_loop rest rw)"

definition score_rate :: "(string \<times> rat) list \<Rightarrow> string \<Rightarrow> rat" where
  "score_rate rw cat =
     (case map_of rw cat of Some v \<Rightarrow> v | None \<Rightarrow> score_alias_loop [cat, ''all''] rw)"

fun score_flat_rebates :: "rebate list \<Rightarrow> rat \<Rightarrow> rat" where
  "score_flat_rebates [] score = score"
| "score_flat_rebates (r # rest) score =
     (case r of
        Flat_rebate amt d \<Rightarrow> score_flat_rebates rest (score + amt)
      | _ \<Rightarrow> score_flat_rebates rest score)"

definition score_card_approx :: "card \<Rightarrow> spending \<Rightarrow> bool \<Rightarrow> bool \<Rightarrow> rat" where
  "score_card_approx c annual_spending include_rebates include_offers =
     (let score = fold (\<lambda>(cat, spend) s. s + score_rate (rewards c) cat * spend * card_point_value c)
                    annual_spending 0;
          score = (if include_rebates then score_flat_rebates (card_rebates c) score else score)
      in score - card_annual_fee c)"

subsection \<open>Portfolio search: \<open>find_best_portfolio\<close>\<close>

text \<open>\<open>xs[:n]\<close>: a negative bound counts from the end.\<close>

definition py_take :: "int \<Rightarrow> 'a list \<Rightarrow> 'a list" where
  "py_take n xs = (if 0 \<le> n then take (nat n) xs else take (nat (int (length xs) + n)) xs)"

definition cards_to_consider ::
  "card list \<Rightarrow> spending \<Rightarrow> int option \<Rightarrow> bool \<Rightarrow> bool \<Rightarrow> card list" where
  "cards_to_consider credit_cards annual_spending max_cards include_rebates include_offers =
     (case max_cards of
        None \<Rightarrow> credit_cards
      | Some n \<Rightarrow>
          if int (length credit_cards) > n then
            (let scored = map (\<lambda>c. (c, score_card_approx c annual_spending include_rebates
                                         include_offers)) credit_cards;
                 scored = sort_key (\<lambda>x. - snd x) scored
             in map fst (py_take n scored))
          else credit_cards)"

text \<open>\<open>itertools.combinations(xs, r)\<close>: the \<open>r\<close>-element subsequences, in lexicographic order of positions.\<close>

fun combinations :: "'a list \<Rightarrow> nat \<Rightarrow> 'a list list" where
  "combinations xs 0 = [[]]"
| "combinations [] (Suc r) = []"
| "combinations (x # xs) (Suc r) = map ((#) x) (combinations xs r) @ combinations xs (Suc r)"

definition max_r :: "card list \<Rightarrow> int option \<Rightarrow> int" where
  "max_r cs max_portfolio_size =
     (case max_portfolio_size of
        None \<Rightarrow> int (length cs)
      | Some m \<Rightarrow> min (int (length cs)) m)"

text \<open>The subsets in the order the two nested loops visit them: \<open>r\<close> from 1 to \<open>max_r\<close>.\<close>

definition enumerate_subsets :: "card list \<Rightarrow> int option \<Rightarrow> card list list" where
  "enumerate_subsets cs max_portfolio_size =
     concat (map (combinations cs) [1..<nat (max_r cs max_portfolio_size + 1)])"

record search_state =
  best_val :: rat
  best_portfolio :: "card list option"
  best_assignment :: assignment
  best_details :: details
  best_rewards :: rat
  best_fees :: rat

definition initial_search_state :: search_state where
  "initial_search_state =
     \<lparr>best_val = - (10 ^ 12), best_portfolio = None, best_assignment = [], best_details = [],
      best_rewards = 0, best_fees = 0\<rparr>"

fun search_loop ::
  "card list list \<Rightarrow> spending \<Rightarrow> rebate_usage \<Rightarrow> search_state \<Rightarrow> error + search_state" where
  "search_loop [] annual_spending usage st = Inr st"
| "search_loop (sub # rest) annual_spending usage st =
     (case evaluate_portfolio sub annual_spending usage of
        Inl e \<Rightarrow> Inl e
      | Inr (val, asg, dets, rew, fees) \<Rightarrow>
          if val > best_val st then
            search_loop rest annual_spending usage
              \<lparr>best_val = val, best_portfolio = Some sub, best_assignment = asg,
               best_details = dets, best_rewards = rew, best_fees = fees\<rparr>
          else search_loop rest annual_spending usage st)"

text \<open>
  The result is the tuple the source returns without its last component, the elapsed
  wall-clock time. (The loop variable \<open>subset\<close> of the source is \<open>sub\<close> above.)
\<close>

definition find_best_portfolio ::
  "card list \<Rightarrow> spending \<Rightarrow> rebate_usage \<Rightarrow> int option \<Rightarrow> int option \<Rightarrow> bool \<Rightarrow> bool
     \<Rightarrow> error + search_state" where
  "find_best_portfolio credit_cards annual_spending usage max_cards max_portfolio_size
       include_rebates include_offers =
     (let cs = cards_to_consider credit_cards annual_spending max_cards include_rebates
                 include_offers
      in search_loop (enumerate_subsets cs max_portfolio_size) annual_spending
           (if include_rebates then usage else Map.empty) initial_search_state)"

section \<open>Notions used to state the properties\<close>

text \<open>
  The rate resolver as the specification words it: the first key of the list that the
  rewards mapping has, else the baseline multiplier 1.
\<close>

definition first_match :: "string list \<Rightarrow> (string \<times> rat) list \<Rightarrow> rat" where
  "first_match aliases rw =
     (case List.find (\<lambda>k. map_of rw k \<noteq> None) aliases of
        None \<Rightarrow> 1
      | Some k \<Rightarrow> the (map_of rw k))"

text \<open>The entries recorded under a card name (\<open>per_card_details.get(name, [])\<close>).\<close>

definition ledger_of :: "details \<Rightarrow> string \<Rightarrow> ledger_entry list" where
  "ledger_of d n = (case map_of d n of None \<Rightarrow> [] | Some es \<Rightarrow> es)"

text \<open>
  The walk of the specification over the sorted category rebates: each rebate, in order,
  uses \<open>min(remaining_spend[category], amount)\<close>, which is taken off the remaining spend
  of its category. An allocation pairs the rebate with the amount used.
\<close>

fun greedy_allocations :: "cat_rebate list \<Rightarrow> (string \<rightharpoonup> rat) \<Rightarrow> (cat_rebate \<times> rat) list" where
  "greedy_allocations [] remaining = []"
| "greedy_allocations ((cat, amt, c, i, r) # rest) remaining =
     (let avail = (case remaining cat of None \<Rightarrow> 0 | Some v \<Rightarrow> v);
          u = min avail amt
      in ((cat, amt, c, i, r), u) # greedy_allocations rest (remaining(cat \<mapsto> avail - u)))"

text \<open>The ledger entry of an allocation, and the card name it is recorded under.\<close>

definition allocation_entry :: "cat_rebate \<times> rat \<Rightarrow> ledger_entry" where
  "allocation_entry a =
     (case a of ((cat, amt, c, i, r), u) \<Rightarrow>
        \<lparr>idx = i, description = rebate_description r ''Category Rebate'', is_category = True,
         used = u, amount = amt, applied = (0 < u)\<rparr>)"

definition allocation_owner :: "cat_rebate \<times> rat \<Rightarrow> string" where
  "allocation_owner a = (case a of ((cat, amt, c, i, r), u) \<Rightarrow> name c)"

text \<open>What a rebate adds as a flat rebate: its amount when it is flat and its usage flag is on.\<close>

definition flat_amount_used :: "rebate_usage \<Rightarrow> string \<Rightarrow> nat \<times> rebate \<Rightarrow> rat" where
  "flat_amount_used usage n p =
     (case p of (i, r) \<Rightarrow>
        (case r of Flat_rebate amt d \<Rightarrow> if used_flag usage n i then amt else 0 | _ \<Rightarrow> 0))"

definition flat_total :: "rebate_usage \<Rightarrow> card list \<Rightarrow> rat" where
  "flat_total usage cards =
     (\<Sum>c\<leftarrow>cards. \<Sum>p\<leftarrow>enumerate 0 (card_rebates c). flat_amount_used usage (name c) p)"






text \<open>
  The value of a category's spend on one card, and the best-card value the evaluator
  keeps for the category (its inner loop, started at 0 with no card).
\<close>

definition card_value :: "card \<Rightarrow> string \<Rightarrow> rat \<Rightarrow> rat" where
  "card_value c cat spend = get_reward_rate c cat * spend * card_point_value c"

definition best_value :: "card list \<Rightarrow> string \<Rightarrow> rat \<Rightarrow> rat" where
  "best_value cards cat spend = fst (best_card_loop cards cat spend (0, None))"

text \<open>
  The data model's ranges: reward multipliers are non-negative and the point value is
  positive; spends are non-negative.
\<close>

definition valid_rates :: "card \<Rightarrow> bool" where
  "valid_rates c = (list_all (\<lambda>(k, v). 0 \<le> v) (rewards c) \<and> 0 < card_point_value c)"


text \<open>
  The net value of a portfolio (when its evaluation returns), compared with a bound; the
  usage state the search hands to the evaluator.
\<close>

definition portfolio_net :: "spending \<Rightarrow> rebate_usage \<Rightarrow> card list \<Rightarrow> rat option" where
  "portfolio_net sp usage sub =
     (case evaluate_portfolio sub sp usage of
        Inl e \<Rightarrow> None
      | Inr (val, asg, dets, rew, fees) \<Rightarrow> Some val)"

definition net_below :: "spending \<Rightarrow> rebate_usage \<Rightarrow> rat \<Rightarrow> card list \<Rightarrow> bool" where
  "net_below sp usage b sub =
     (case portfolio_net sp usage sub of None \<Rightarrow> False | Some v \<Rightarrow> v < b)"

definition net_at_most :: "spending \<Rightarrow> rebate_usage \<Rightarrow> rat \<Rightarrow> card list \<Rightarrow> bool" where
  "net_at_most sp usage b sub =
     (case portfolio_net sp usage sub of None \<Rightarrow> False | Some v \<Rightarrow> v \<le> b)"

definition search_usage :: "rebate_usage \<Rightarrow> bool \<Rightarrow> rebate_usage" where
  "search_usage usage include_rebates = (if include_rebates then usage else Map.empty)"

text \<open>
  The prefiltered candidate set as the specification words it: when a limit is set and the
  catalog exceeds it, the top cards by approximate score, descending (a stable sort);
  otherwise the whole catalog. A limit is a count: it is not negative.
\<close>

definition top_by_score :: "card list \<Rightarrow> spending \<Rightarrow> nat \<Rightarrow> bool \<Rightarrow> bool \<Rightarrow> card list" where
  "top_by_score catalog sp n include_rebates include_offers =
     take n (map fst (sort_key (\<lambda>x. - snd x)
       (map (\<lambda>c. (c, score_card_approx c sp include_rebates include_offers)) catalog)))"

definition prefiltered :: "card list \<Rightarrow> spending \<Rightarrow> int option \<Rightarrow> bool \<Rightarrow> bool \<Rightarrow> card list" where
  "prefiltered catalog sp max_cards include_rebates include_offers =
     (case max_cards of
        None \<Rightarrow> catalog
      | Some n \<Rightarrow>
          if n < int (length catalog) then top_by_score catalog sp (nat n) include_rebates include_offers
          else catalog)"

definition limit_ok :: "int option \<Rightarrow> bool" where
  "limit_ok max_cards = (case max_cards of None \<Rightarrow> True | Some n \<Rightarrow> 0 \<le> n)"

subsection \<open>Concrete inputs\<close>

text \<open>The annual profile the application builds from its monthly defaults (times 12).\<close>

definition default_profile :: spending where
  "default_profile =
     [(''groceries'', 6000), (''dining'', 4800), (''flights_portal'', 7200), (''hotel'', 1800),
      (''gas'', 2400), (''online_shopping'', 3600), (''other'', 3600)]"

definition travel_card :: card where
  "travel_card =
     \<lparr>name = ''Travel'', rewards = [(''travel_portal'', 5), (''all'', 2)],
      point_value = None, annual_fee = None, rebates = None\<rparr>"

definition streaming_card :: card where
  "streaming_card =
     \<lparr>name = ''Streaming'', rewards = [], point_value = None, annual_fee = None,
      rebates = Some [Category_rebate ''streaming'' 50 None]\<rparr>"

text \<open>The scenario of two cards that each offer a 300 rebate on dining, and its ledger.\<close>

definition dining_card_first :: card where
  "dining_card_first =
     \<lparr>name = ''First'', rewards = [], point_value = None, annual_fee = None,
      rebates = Some [Category_rebate ''dining'' 300 None]\<rparr>"

definition dining_card_second :: card where
  "dining_card_second =
     \<lparr>name = ''Second'', rewards = [], point_value = None, annual_fee = None,
      rebates = Some [Category_rebate ''dining'' 300 None]\<rparr>"

definition dining_scenario_ledger :: details where
  "dining_scenario_ledger =
     [(''First'', [\<lparr>idx = 0, description = ''Category Rebate'', is_category = True,
                   used = 250, amount = 300, applied = True\<rparr>]),
      (''Second'', [\<lparr>idx = 0, description = ''Category Rebate'', is_category = True,
                    used = 0, amount = 300, applied = False\<rparr>])]"

text \<open>A card with no rewards, fee or rebates, and what it earns on the default profile.\<close>

definition plain_card :: card where
  "plain_card =
     \<lparr>name = ''Plain'', rewards = [], point_value = None, annual_fee = None, rebates = None\<rparr>"


text \<open>The regression fixture of the specification: CardA, CardB and 4800 of dining spend.\<close>

definition fixture_card_a :: card where
  "fixture_card_a =
     \<lparr>name = ''CardA'', rewards = [(''dining'', 3)], point_value = Some (1 / 100),
      annual_fee = Some 95, rebates = None\<rparr>"

definition fixture_card_b :: card where
  "fixture_card_b =
     \<lparr>name = ''CardB'', rewards = [(''all'', 1)], point_value = Some (1 / 100),
      annual_fee = Some 0, rebates = None\<rparr>"

definition fixture_profile :: spending where
  "fixture_profile =
     [(''groceries'', 0), (''dining'', 4800), (''flights_portal'', 0), (''hotel'', 0),
      (''gas'', 0), (''online_shopping'', 0), (''other'', 0)]"

definition fixture_assignment :: assignment where
  "fixture_assignment =
     [(''groceries'', None, 0), (''dining'', Some ''CardA'', 144), (''flights_portal'', None, 0),
      (''hotel'', None, 0), (''gas'', None, 0), (''online_shopping'', None, 0),
      (''other'', None, 0)]"

text \<open>The result of the search on the fixture, and a card with one flat rebate that the user switched off.\<close>

definition fixture_result :: search_state where
  "fixture_result =
     \<lparr>best_val = 49, best_portfolio = Some [fixture_card_a], best_assignment = fixture_assignment,
      best_details = [(''CardA'', [])], best_rewards = 144, best_fees = 95\<rparr>"

definition credit_card :: card where
  "credit_card =
     \<lparr>name = ''Credit'', rewards = [], point_value = None, annual_fee = None,
      rebates = Some [Flat_rebate 100 None]\<rparr>"

definition credit_switched_off :: rebate_usage where
  "credit_switched_off = [''Credit'' \<mapsto> [0 \<mapsto> False]]"

definition credit_assignment :: assignment where
  "credit_assignment =
     [(''groceries'', Some ''Credit'', 60), (''dining'', Some ''Credit'', 48),
      (''flights_portal'', Some ''Credit'', 72), (''hotel'', Some ''Credit'', 18),
      (''gas'', Some ''Credit'', 24), (''online_shopping'', Some ''Credit'', 36),
      (''other'', Some ''Credit'', 36)]"

section \<open>Rate resolver\<close>

lemma try_keys_first_match: "try_keys ks rw = first_match ks rw"
  by (induction ks) (auto simp: first_match_def split: option.splits)

text \<open>
  C4. For every card and every canonical category, \<open>get_reward_rate\<close> tries the
  category's alias list of \<open>category_map\<close> in order, then the universal key \<open>all\<close>,
  against the card's rewards and returns the first multiplier found; when none of these
  keys is present it returns 1. The function is total: it has no error result.
\<close>

theorem get_reward_rate_first_alias:
  "category \<in> set categories \<Longrightarrow>
     \<exists>aliases. map_of category_map category = Some aliases \<and>
       get_reward_rate c category = first_match (aliases @ [''all'']) (rewards c)"
  by (auto simp: categories_def category_map_def get_reward_rate_def keys_to_try_def
        try_keys_first_match)

theorem get_reward_rate_first_alias_witness:
  "''hotel'' \<in> set categories \<and>
     (\<exists>aliases. map_of category_map ''hotel'' = Some aliases \<and>
        get_reward_rate travel_card ''hotel'' =
          first_match (aliases @ [''all'']) (rewards travel_card)) \<and>
     get_reward_rate travel_card ''hotel'' = 5"
  using get_reward_rate_first_alias [of "''hotel''" travel_card]
  by (simp add: categories_def get_reward_rate_def keys_to_try_def category_map_def
        travel_card_def)

section \<open>Rebate resolver\<close>

lemma ledger_of_append_detail:
  "ledger_of (append_detail n e d) m = (if m = n then ledger_of d n @ [e] else ledger_of d m)"
  by (simp add: ledger_of_def append_detail_def update_conv')

lemma ledger_of_setdefault_empty: "ledger_of (setdefault_empty n d) m = ledger_of d m"
  by (cases "map_of d n") (auto simp: ledger_of_def setdefault_empty_def map_add_def split: option.splits)

lemma category_entry_allocation:
  "category_entry i r u amt = allocation_entry ((cat, amt, c, i, r), u)"
  by (simp add: category_entry_def allocation_entry_def)

lemma apply_category_rebates_allocations:
  "apply_category_rebates rs rem t d0 = Inr (rem', t', d') \<Longrightarrow>
     t' = t + sum_list (map snd (greedy_allocations rs rem)) \<and>
     (\<forall>n. ledger_of d' n =
        ledger_of d0 n @
          map allocation_entry (filter (\<lambda>a. allocation_owner a = n) (greedy_allocations rs rem)))"
proof (induction rs arbitrary: rem t d0)
  case Nil
  then show ?case by simp
next
  case (Cons x rs)
  obtain cat amt c i r where x: "x = (cat, amt, c, i, r)" by (cases x) auto
  from Cons.prems x obtain v where v: "rem cat = Some v"
    by (auto simp: Let_def split: option.splits)
  let ?u = "min v amt"
  from Cons.prems x v have rec: "apply_category_rebates rs (rem(cat \<mapsto> v - ?u)) (t + ?u)
      (append_detail (name c) (category_entry i r ?u amt) d0) = Inr (rem', t', d')"
    by (simp add: Let_def)
  have ga: "greedy_allocations (x # rs) rem =
      (x, ?u) # greedy_allocations rs (rem(cat \<mapsto> v - ?u))"
    using x v by (simp add: Let_def)
  define A where "A = greedy_allocations rs (rem(cat \<mapsto> v - ?u))"
  have own: "allocation_owner (x, ?u) = name c"
    by (simp add: allocation_owner_def x)
  have ent: "category_entry i r ?u amt = allocation_entry (x, ?u)"
    by (simp add: x category_entry_allocation [of i r _ amt cat c])
  have IH: "t' = t + ?u + sum_list (map snd A) \<and>
      (\<forall>n. ledger_of d' n =
         ledger_of (append_detail (name c) (category_entry i r ?u amt) d0) n @
           map allocation_entry (filter (\<lambda>a. allocation_owner a = n) A))"
    unfolding A_def by (rule Cons.IH [OF rec])
  show ?case
    unfolding ga A_def [symmetric]
    using IH by (simp add: ledger_of_append_detail own ent)
qed

lemma apply_flat_card_effect:
  "apply_flat_card usage n ps t d0 = (t', d') \<Longrightarrow>
     t' = t + (\<Sum>p\<leftarrow>ps. flat_amount_used usage n p) \<and>
     (\<forall>m. filter is_category (ledger_of d' m) = filter is_category (ledger_of d0 m))"
proof (induction ps arbitrary: t d0)
  case Nil
  then show ?case by simp
next
  case (Cons p ps)
  obtain i r where p: "p = (i, r)" by (cases p)
  show ?case
  proof (cases r)
    case (Flat_rebate amt ds)
    with Cons.prems p have rec: "apply_flat_card usage n ps
        (if used_flag usage n i then t + amt else t)
        (append_detail n (flat_entry i r amt (used_flag usage n i)) d0) = (t', d')"
      by (simp add: Let_def)
    from Cons.IH [OF rec] p Flat_rebate show ?thesis
      by (auto simp: flat_amount_used_def ledger_of_append_detail flat_entry_def)
  next
    case (Category_rebate cat amt ds)
    with Cons.prems p have "apply_flat_card usage n ps t d0 = (t', d')" by simp
    from Cons.IH [OF this] p Category_rebate show ?thesis
      by (simp add: flat_amount_used_def)
  next
    case (Other_rebate tg)
    with Cons.prems p have "apply_flat_card usage n ps t d0 = (t', d')" by simp
    from Cons.IH [OF this] p Other_rebate show ?thesis
      by (simp add: flat_amount_used_def)
  qed
qed

lemma apply_flat_rebates_effect:
  "apply_flat_rebates usage cards t d0 = (t', d') \<Longrightarrow>
     t' = t + flat_total usage cards \<and>
     (\<forall>m. filter is_category (ledger_of d' m) = filter is_category (ledger_of d0 m))"
proof (induction cards arbitrary: t d0)
  case Nil
  then show ?case by (simp add: flat_total_def)
next
  case (Cons c cards)
  obtain t1 d1 where one: "apply_flat_card usage (name c) (enumerate 0 (card_rebates c)) t
      (setdefault_empty (name c) d0) = (t1, d1)"
    by (cases "apply_flat_card usage (name c) (enumerate 0 (card_rebates c)) t
      (setdefault_empty (name c) d0)")
  with Cons.prems have rec: "apply_flat_rebates usage cards t1 d1 = (t', d')" by simp
  from apply_flat_card_effect [OF one] Cons.IH [OF rec] show ?case
    by (simp add: flat_total_def ledger_of_setdefault_empty)
qed

lemmas eval_defs =
  apply_rebates_def gather_category_rebates_def card_rebates_def sort_category_rebates_def
  enumerate_eq_zip setdefault_empty_def append_detail_def category_entry_def flat_entry_def
  used_flag_def rebate_description_def

lemma dining_scenario:
  "apply_rebates [dining_card_first, dining_card_second] [(''dining'', 250)] Map.empty =
     Inr (250, dining_scenario_ledger)"
  by (simp add: eval_defs dining_card_first_def dining_card_second_def dining_scenario_ledger_def)

lemma sort_category_rebates_descending:
  "sorted_wrt (\<lambda>x y. fst (snd y) \<le> fst (snd x)) (sort_category_rebates rs)"
proof -
  have "sorted (map (\<lambda>x. - fst (snd x)) (sort_category_rebates rs))"
    unfolding sort_category_rebates_def by (rule sorted_sort_key)
  then show ?thesis by (simp add: sorted_map)
qed

lemma sort_category_rebates_stable:
  "filter (\<lambda>x. fst (snd x) = a) (sort_category_rebates rs) = filter (\<lambda>x. fst (snd x) = a) rs"
  using sort_key_stable [of "\<lambda>x. - fst (snd x)" "- a" rs]
  by (simp add: sort_category_rebates_def)

text \<open>
  C3. \<open>apply_rebates\<close> processes the collected category rebates in the order of a stable
  sort on amount, descending: the sorted list is a permutation of the collected one, its
  amounts descend, and rebates of equal amount keep their encounter order. Whenever it
  returns, its total is the sum of the amounts used by the greedy walk over that order
  (each rebate uses the minimum of the remaining spend of its category and its amount,
  and the remaining spend is reduced by it) plus the flat rebates in use, and the
  category entries of every card's ledger are those of the walk. In particular, with two
  cards that each offer a 300 rebate on dining and a dining spend of 250, the total is
  250, all of it used by the first card's rebate, and the second card's entry has
  \<open>used = 0\<close> and \<open>applied = False\<close>.
\<close>

theorem apply_rebates_greedy_largest_first:
  assumes "apply_rebates cards sp usage = Inr (total_rebate, d)"
  shows "mset (sort_category_rebates (gather_category_rebates cards)) =
           mset (gather_category_rebates cards) \<and>
         sorted_wrt (\<lambda>x y. fst (snd y) \<le> fst (snd x))
           (sort_category_rebates (gather_category_rebates cards)) \<and>
         (\<forall>a. filter (\<lambda>x. fst (snd x) = a) (sort_category_rebates (gather_category_rebates cards)) =
              filter (\<lambda>x. fst (snd x) = a) (gather_category_rebates cards)) \<and>
         total_rebate =
           sum_list (map snd (greedy_allocations
             (sort_category_rebates (gather_category_rebates cards)) (map_of sp))) +
           flat_total usage cards \<and>
         (\<forall>n. filter is_category (ledger_of d n) =
              map allocation_entry (filter (\<lambda>a. allocation_owner a = n)
                (greedy_allocations (sort_category_rebates (gather_category_rebates cards))
                   (map_of sp)))) \<and>
         apply_rebates [dining_card_first, dining_card_second] [(''dining'', 250)] Map.empty =
           Inr (250, dining_scenario_ledger)"
proof -
  let ?rs = "sort_category_rebates (gather_category_rebates cards)"
  from assms obtain rem' t1 d1 where
    cat: "apply_category_rebates ?rs (map_of sp) 0 [] = Inr (rem', t1, d1)" and
    flat: "apply_flat_rebates usage cards t1 d1 = (total_rebate, d)"
    by (auto simp: apply_rebates_def split: sum.splits)
  note c = apply_category_rebates_allocations [OF cat]
  note f = apply_flat_rebates_effect [OF flat]
  have all_cat: "filter is_category (map allocation_entry xs) = map allocation_entry xs" for xs
    by (induction xs) (auto simp: allocation_entry_def split: prod.splits)
  have tot: "total_rebate = sum_list (map snd (greedy_allocations ?rs (map_of sp))) + flat_total usage cards"
    using c f by simp
  have led: "filter is_category (ledger_of d n) =
      map allocation_entry (filter (\<lambda>a. allocation_owner a = n)
        (greedy_allocations ?rs (map_of sp)))" for n
    using c f by (simp add: ledger_of_def all_cat)
  show ?thesis
    using tot led sort_category_rebates_descending sort_category_rebates_stable dining_scenario
    by (simp add: sort_category_rebates_def)
qed

theorem apply_rebates_greedy_largest_first_witness:
  "apply_rebates [dining_card_first, dining_card_second] [(''dining'', 250)] Map.empty =
     Inr (250, dining_scenario_ledger) \<and>
   250 = sum_list (map snd (greedy_allocations
           (sort_category_rebates (gather_category_rebates [dining_card_first, dining_card_second]))
           (map_of [(''dining'', 250)]))) +
         flat_total Map.empty [dining_card_first, dining_card_second] \<and>
   filter is_category (ledger_of dining_scenario_ledger ''Second'') =
     [\<lparr>idx = 0, description = ''Category Rebate'', is_category = True,
       used = 0, amount = 300, applied = False\<rparr>]"
  using apply_rebates_greedy_largest_first [OF dining_scenario]
  by (simp add: dining_scenario ledger_of_def dining_scenario_ledger_def)














text \<open>
  The only failure of \<open>apply_rebates\<close> is the \<open>KeyError\<close> of the decrement: when every
  collected category rebate names a key of the profile, it returns.
\<close>

lemma apply_category_rebates_returns:
  "\<forall>x\<in>set rs. rem (fst x) \<noteq> None \<Longrightarrow> \<exists>res. apply_category_rebates rs rem t d = Inr res"
proof (induction rs arbitrary: rem t d)
  case Nil
  then show ?case by simp
next
  case (Cons x rs)
  obtain cat amt c i r where x: "x = (cat, amt, c, i, r)" by (cases x) auto
  from Cons.prems x have "rem cat \<noteq> None" by simp
  then obtain v where v: "rem cat = Some v" by blast
  let ?u = "min v amt"
  from Cons.prems have "\<forall>y\<in>set rs. (rem(cat \<mapsto> v - ?u)) (fst y) \<noteq> None" by simp
  from Cons.IH [OF this] obtain res where
    "apply_category_rebates rs (rem(cat \<mapsto> v - ?u)) (t + ?u)
       (append_detail (name c) (category_entry i r ?u amt) d) = Inr res"
    by blast
  with x v have "apply_category_rebates (x # rs) rem t d = Inr res"
    by (simp add: Let_def)
  then show ?case by blast
qed

lemma apply_rebates_returns:
  assumes "\<forall>x\<in>set (gather_category_rebates cards). map_of sp (fst x) \<noteq> None"
  shows "\<exists>res. apply_rebates cards sp usage = Inr res"
proof -
  from assms have "\<forall>x\<in>set (sort_category_rebates (gather_category_rebates cards)).
      map_of sp (fst x) \<noteq> None"
    by (simp add: sort_category_rebates_def)
  from apply_category_rebates_returns [OF this, of 0 "[]"] obtain res where
    r: "apply_category_rebates (sort_category_rebates (gather_category_rebates cards))
          (map_of sp) 0 [] = Inr res"
    by blast
  obtain rem' t1 d1 where "res = (rem', t1, d1)" by (cases res)
  with r show ?thesis by (simp add: apply_rebates_def)
qed

text \<open>
  C8. A category rebate whose category is not a key of the spending profile does not
  contribute 0: \<open>apply_rebates\<close> raises \<open>KeyError\<close> on it. Here a card offers a rebate on
  \<open>streaming\<close> and the profile is the application's default one.
\<close>

theorem apply_rebates_unmapped_category_raises:
  "apply_rebates [streaming_card] default_profile Map.empty = Inl (KeyError ''streaming'')"
  by (simp add: apply_rebates_def streaming_card_def default_profile_def
        gather_category_rebates_def card_rebates_def sort_category_rebates_def enumerate_eq_zip)

section \<open>Portfolio evaluator\<close>

lemmas evaluate_defs =
  evaluate_portfolio_def get_reward_rate_def keys_to_try_def category_map_def
  card_point_value_def card_annual_fee_def


lemma fixture_valid_rates: "list_all valid_rates [fixture_card_a, fixture_card_b]"
  by (simp add: valid_rates_def card_point_value_def fixture_card_a_def fixture_card_b_def)



lemma try_keys_nonneg: "list_all (\<lambda>(k, v). 0 \<le> v) rw \<Longrightarrow> 0 \<le> try_keys ks rw"
proof (induction ks)
  case Nil
  then show ?case by simp
next
  case (Cons k ks)
  show ?case
  proof (cases "map_of rw k")
    case None
    with Cons show ?thesis by simp
  next
    case (Some v)
    then have "(k, v) \<in> set rw" by (rule map_of_SomeD)
    with Cons.prems have "0 \<le> v" by (auto simp: list_all_iff)
    with Some show ?thesis by simp
  qed
qed

lemma valid_rates_factor:
  "valid_rates c \<Longrightarrow> 0 \<le> get_reward_rate c cat \<and> 0 < card_point_value c"
  by (simp add: valid_rates_def get_reward_rate_def try_keys_nonneg)


lemma card_value_mono:
  assumes "valid_rates c" and "s1 \<le> s2"
  shows "card_value c cat s1 \<le> card_value c cat s2"
proof -
  from valid_rates_factor [OF assms(1), of cat]
  have r: "0 \<le> get_reward_rate c cat" and p: "0 \<le> card_point_value c" by simp_all
  from assms(2) r have "get_reward_rate c cat * s1 \<le> get_reward_rate c cat * s2"
    by (rule mult_left_mono)
  then show ?thesis unfolding card_value_def using p by (rule mult_right_mono)
qed

lemma best_card_loop_mono:
  assumes "\<forall>c\<in>set cards. card_value c cat s1 \<le> card_value c cat s2" and "b1 \<le> b2"
  shows "fst (best_card_loop cards cat s1 (b1, c1)) \<le> fst (best_card_loop cards cat s2 (b2, c2))"
  using assms
proof (induction cards arbitrary: b1 b2 c1 c2)
  case Nil
  then show ?case by simp
next
  case (Cons c cards)
  let ?v1 = "get_reward_rate c cat * s1 * card_point_value c"
  let ?v2 = "get_reward_rate c cat * s2 * card_point_value c"
  from Cons.prems have v: "?v1 \<le> ?v2" and
    rest: "\<forall>c\<in>set cards. card_value c cat s1 \<le> card_value c cat s2"
    by (simp_all add: card_value_def)
  note IH = Cons.IH [OF rest]
  show ?case
  proof (cases "b1 < ?v1")
    case True
    note t1 = True
    show ?thesis
    proof (cases "b2 < ?v2")
      case True
      with t1 IH [OF v] show ?thesis by (simp add: Let_def)
    next
      case False
      with t1 v have "?v1 \<le> b2" by simp
      from IH [OF this] t1 False show ?thesis by (simp add: Let_def)
    qed
  next
    case False
    note f1 = False
    show ?thesis
    proof (cases "b2 < ?v2")
      case True
      with Cons.prems(2) have "b1 \<le> ?v2" by simp
      from IH [OF this] f1 True show ?thesis by (simp add: Let_def)
    next
      case False
      with f1 IH [OF Cons.prems(2)] show ?thesis by (simp add: Let_def)
    qed
  qed
qed

text \<open>
  C10. For a fixed list of cards with non-negative reward multipliers and positive point
  values, and every category, the best-card value the evaluator computes for the category
  is monotonically non-decreasing in the spend: for spends \<open>0 \<le> s1 \<le> s2\<close> the value at
  \<open>s1\<close> is at most the value at \<open>s2\<close>.
\<close>

theorem best_value_monotone_in_spend:
  assumes "list_all valid_rates cards" and "0 \<le> s1" and "s1 \<le> s2"
  shows "best_value cards cat s1 \<le> best_value cards cat s2"
  unfolding best_value_def
  using assms by (intro best_card_loop_mono) (simp_all add: card_value_mono list_all_iff)

theorem best_value_monotone_in_spend_witness:
  "list_all valid_rates [fixture_card_a, fixture_card_b] \<and> (0 :: rat) \<le> 100 \<and>
   (100 :: rat) \<le> 4800 \<and>
   best_value [fixture_card_a, fixture_card_b] ''dining'' 100 \<le>
     best_value [fixture_card_a, fixture_card_b] ''dining'' 4800 \<and>
   best_value [fixture_card_a, fixture_card_b] ''dining'' 100 = 3 \<and>
   best_value [fixture_card_a, fixture_card_b] ''dining'' 4800 = 144"
proof -
  have a: "(0 :: rat) \<le> 100" and b: "(100 :: rat) \<le> 4800" by simp_all
  have v: "best_value [fixture_card_a, fixture_card_b] ''dining'' 100 = 3"
      "best_value [fixture_card_a, fixture_card_b] ''dining'' 4800 = 144"
    by (simp_all add: best_value_def evaluate_defs fixture_card_a_def fixture_card_b_def)
  from best_value_monotone_in_spend [OF fixture_valid_rates a b, of "''dining''"]
  show ?thesis using fixture_valid_rates v by simp
qed


















section \<open>Portfolio search\<close>

lemmas search_defs =
  find_best_portfolio_def cards_to_consider_def enumerate_subsets_def max_r_def
  initial_search_state_def score_card_approx_def score_rate_def py_take_def

lemma search_loop_result:
  assumes "search_loop subs sp u st = Inr st'"
  shows "best_val st \<le> best_val st' \<and>
         list_all (net_at_most sp u (best_val st')) subs \<and>
         (st' = st \<or>
          (\<exists>pre p post. subs = pre @ p # post \<and> best_portfolio st' = Some p \<and>
             portfolio_net sp u p = Some (best_val st') \<and> best_val st < best_val st' \<and>
             list_all (net_below sp u (best_val st')) pre \<and>
             list_all (net_at_most sp u (best_val st')) post))"
  using assms
proof (induction subs arbitrary: st)
  case Nil
  then show ?case by simp
next
  case (Cons sub rest)
  from Cons.prems obtain val asg dets rew fees where
    ev: "evaluate_portfolio sub sp u = Inr (val, asg, dets, rew, fees)"
    by (cases "evaluate_portfolio sub sp u") auto
  then have net: "portfolio_net sp u sub = Some val" by (simp add: portfolio_net_def)
  define st1 where "st1 = (if val > best_val st then
      \<lparr>best_val = val, best_portfolio = Some sub, best_assignment = asg,
       best_details = dets, best_rewards = rew, best_fees = fees\<rparr> else st)"
  from Cons.prems ev have rec: "search_loop rest sp u st1 = Inr st'"
    by (simp add: st1_def split: if_splits)
  have b01: "best_val st \<le> best_val st1" and v1: "val \<le> best_val st1"
    by (simp_all add: st1_def)
  note IH = Cons.IH [OF rec]
  from IH have b1: "best_val st1 \<le> best_val st'"
    and all: "list_all (net_at_most sp u (best_val st')) rest" by simp_all
  have sub_ok: "net_at_most sp u (best_val st') sub"
    using net v1 b1 by (simp add: net_at_most_def)
  from IH have "st' = st1 \<or>
      (\<exists>pre p post. rest = pre @ p # post \<and> best_portfolio st' = Some p \<and>
         portfolio_net sp u p = Some (best_val st') \<and> best_val st1 < best_val st' \<and>
         list_all (net_below sp u (best_val st')) pre \<and>
         list_all (net_at_most sp u (best_val st')) post)"
    by simp
  then have "st' = st \<or>
      (\<exists>pre p post. sub # rest = pre @ p # post \<and> best_portfolio st' = Some p \<and>
         portfolio_net sp u p = Some (best_val st') \<and> best_val st < best_val st' \<and>
         list_all (net_below sp u (best_val st')) pre \<and>
         list_all (net_at_most sp u (best_val st')) post)"
  proof
    assume same: "st' = st1"
    show ?thesis
    proof (cases "val > best_val st")
      case True
      with same have "best_portfolio st' = Some sub" "best_val st' = val"
        by (simp_all add: st1_def)
      with True net all have "sub # rest = [] @ sub # rest \<and> best_portfolio st' = Some sub \<and>
          portfolio_net sp u sub = Some (best_val st') \<and> best_val st < best_val st' \<and>
          list_all (net_below sp u (best_val st')) [] \<and>
          list_all (net_at_most sp u (best_val st')) rest"
        by simp
      then show ?thesis by blast
    next
      case False
      with same show ?thesis by (simp add: st1_def)
    qed
  next
    assume "\<exists>pre p post. rest = pre @ p # post \<and> best_portfolio st' = Some p \<and>
         portfolio_net sp u p = Some (best_val st') \<and> best_val st1 < best_val st' \<and>
         list_all (net_below sp u (best_val st')) pre \<and>
         list_all (net_at_most sp u (best_val st')) post"
    then obtain pre p post where d: "rest = pre @ p # post" and
      bp: "best_portfolio st' = Some p" and pn: "portfolio_net sp u p = Some (best_val st')" and
      lt: "best_val st1 < best_val st'" and
      pre: "list_all (net_below sp u (best_val st')) pre" and
      post: "list_all (net_at_most sp u (best_val st')) post"
      by blast
    from net v1 lt have "net_below sp u (best_val st') sub" by (simp add: net_below_def)
    with d bp pn lt pre post b01 have "sub # rest = (sub # pre) @ p # post \<and>
        best_portfolio st' = Some p \<and>
        portfolio_net sp u p = Some (best_val st') \<and> best_val st < best_val st' \<and>
        list_all (net_below sp u (best_val st')) (sub # pre) \<and>
        list_all (net_at_most sp u (best_val st')) post"
      by simp
    then show ?thesis by blast
  qed
  with b01 b1 all sub_ok show ?case by simp
qed

lemma combinations_elem:
  "xs \<in> set (combinations ys r) \<Longrightarrow> length xs = r \<and> set xs \<subseteq> set ys"
proof (induction ys r arbitrary: xs rule: combinations.induct)
  case (1 xs)
  then show ?case by simp
next
  case (2 r)
  then show ?case by simp
next
  case (3 x ys r)
  from "3.prems" consider zs where "xs = x # zs" "zs \<in> set (combinations ys r)"
    | "xs \<in> set (combinations ys (Suc r))"
    by auto
  then show ?case
  proof cases
    case 1
    with "3.IH"(1) [of zs] show ?thesis by auto
  next
    case 2
    with "3.IH"(2) [of xs] show ?thesis by auto
  qed
qed

lemma enumerate_subsets_elem:
  assumes "p \<in> set (enumerate_subsets cs (Some m))"
  shows "1 \<le> length p \<and> int (length p) \<le> m \<and> set p \<subseteq> set cs"
proof -
  from assms obtain r where r: "1 \<le> r" "r < nat (max_r cs (Some m) + 1)" and
    p: "p \<in> set (combinations cs r)"
    by (auto simp: enumerate_subsets_def)
  from combinations_elem [OF p] r show ?thesis
    by (auto simp: max_r_def)
qed

lemma cards_to_consider_prefiltered:
  "limit_ok max_cards \<Longrightarrow>
     cards_to_consider catalog sp max_cards ir io = prefiltered catalog sp max_cards ir io"
  by (auto simp: limit_ok_def cards_to_consider_def prefiltered_def top_by_score_def py_take_def
        Let_def take_map split: option.splits)

lemma find_best_portfolio_search:
  "find_best_portfolio catalog sp usage max_cards mps ir io =
     search_loop (enumerate_subsets (cards_to_consider catalog sp max_cards ir io) mps) sp
       (search_usage usage ir) initial_search_state"
  by (simp add: find_best_portfolio_def search_usage_def Let_def)

lemma fixture_search:
  "find_best_portfolio [fixture_card_a, fixture_card_b, plain_card] fixture_profile Map.empty
     (Some 2) (Some 2) True True = Inr fixture_result"
  by (simp add: search_defs evaluate_defs eval_defs fixture_card_a_def fixture_card_b_def
        plain_card_def fixture_profile_def fixture_assignment_def fixture_result_def
        upt_conv_Cons eval_nat_numeral)

lemma empty_catalog_search:
  "find_best_portfolio [] default_profile Map.empty (Some 16) (Some 4) True True =
     Inr \<lparr>best_val = - (10 ^ 12), best_portfolio = None, best_assignment = [],
          best_details = [], best_rewards = 0, best_fees = 0\<rparr>"
  by (simp add: search_defs)

lemma zero_size_search:
  "find_best_portfolio [plain_card] default_profile Map.empty (Some 16) (Some 0) True True =
     Inr \<lparr>best_val = - (10 ^ 12), best_portfolio = None, best_assignment = [],
          best_details = [], best_rewards = 0, best_fees = 0\<rparr>"
  by (simp add: search_defs)

lemma fixture_candidates:
  "cards_to_consider [fixture_card_a, fixture_card_b, plain_card] fixture_profile (Some 2)
     True True = [fixture_card_a, fixture_card_b]"
  by (simp add: search_defs evaluate_defs card_rebates_def fixture_card_a_def fixture_card_b_def
        plain_card_def fixture_profile_def eval_nat_numeral)

lemma fixture_subsets:
  "enumerate_subsets [fixture_card_a, fixture_card_b] (Some 2) =
     [[fixture_card_a], [fixture_card_b], [fixture_card_a, fixture_card_b]]"
  by (simp add: enumerate_subsets_def max_r_def upt_conv_Cons eval_nat_numeral)

lemma fixture_nets:
  "portfolio_net fixture_profile Map.empty [fixture_card_a] = Some 49"
  "portfolio_net fixture_profile Map.empty [fixture_card_b] = Some 48"
  "portfolio_net fixture_profile Map.empty [fixture_card_a, fixture_card_b] = Some 49"
  by (simp_all add: portfolio_net_def evaluate_defs eval_defs fixture_card_a_def
        fixture_card_b_def fixture_profile_def)

text \<open>
  C5. With \<open>max_portfolio_size\<close> set to \<open>m\<close>, a portfolio that \<open>find_best_portfolio\<close>
  returns has at least 1 and at most \<open>m\<close> cards, all of them from the candidate list
  \<open>cards_to_consider\<close>, which for a non-negative limit is the prefiltered candidate set
  (the top \<open>max_cards\<close> cards by approximate score, descending, when the catalog exceeds
  the limit, else the whole catalog); and it is the first subset in enumeration order
  that attains the maximum net value: every subset enumerated before it has a strictly
  smaller net value, every subset after it has at most its net value.
\<close>

theorem find_best_portfolio_result:
  assumes "find_best_portfolio catalog sp usage max_cards (Some m) ir io = Inr st"
    and "best_portfolio st = Some p"
  shows "1 \<le> length p \<and> int (length p) \<le> m \<and>
         set p \<subseteq> set (cards_to_consider catalog sp max_cards ir io) \<and>
         (limit_ok max_cards \<longrightarrow>
            cards_to_consider catalog sp max_cards ir io = prefiltered catalog sp max_cards ir io) \<and>
         (\<exists>pre post.
            enumerate_subsets (cards_to_consider catalog sp max_cards ir io) (Some m) =
              pre @ p # post \<and>
            list_all (net_below sp (search_usage usage ir) (best_val st)) pre \<and>
            list_all (net_at_most sp (search_usage usage ir) (best_val st)) post \<and>
            portfolio_net sp (search_usage usage ir) p = Some (best_val st))"
proof -
  let ?cs = "cards_to_consider catalog sp max_cards ir io"
  let ?subs = "enumerate_subsets ?cs (Some m)"
  let ?u = "search_usage usage ir"
  from assms(1) have run: "search_loop ?subs sp ?u initial_search_state = Inr st"
    by (simp add: find_best_portfolio_search)
  from assms(2) have "st \<noteq> initial_search_state"
    by (auto simp: initial_search_state_def)
  with search_loop_result [OF run] assms(2) obtain pre post where
    d: "?subs = pre @ p # post" and
    n: "portfolio_net sp ?u p = Some (best_val st)" and
    pre: "list_all (net_below sp ?u (best_val st)) pre" and
    post: "list_all (net_at_most sp ?u (best_val st)) post"
    by auto
  from d have "p \<in> set ?subs" by simp
  from enumerate_subsets_elem [OF this] d n pre post show ?thesis
    by (auto simp: cards_to_consider_prefiltered)
qed

theorem find_best_portfolio_result_witness:
  "find_best_portfolio [fixture_card_a, fixture_card_b, plain_card] fixture_profile Map.empty
     (Some 2) (Some 2) True True = Inr fixture_result \<and>
   best_portfolio fixture_result = Some [fixture_card_a] \<and>
   1 \<le> length [fixture_card_a] \<and> int (length [fixture_card_a]) \<le> 2 \<and>
   set [fixture_card_a] \<subseteq>
     set (cards_to_consider [fixture_card_a, fixture_card_b, plain_card] fixture_profile (Some 2)
            True True) \<and>
   cards_to_consider [fixture_card_a, fixture_card_b, plain_card] fixture_profile (Some 2)
     True True =
     prefiltered [fixture_card_a, fixture_card_b, plain_card] fixture_profile (Some 2) True True \<and>
   prefiltered [fixture_card_a, fixture_card_b, plain_card] fixture_profile (Some 2) True True =
     [fixture_card_a, fixture_card_b] \<and>
   enumerate_subsets [fixture_card_a, fixture_card_b] (Some 2) =
     [[fixture_card_a], [fixture_card_b], [fixture_card_a, fixture_card_b]] \<and>
   portfolio_net fixture_profile Map.empty [fixture_card_a] = Some 49 \<and>
   portfolio_net fixture_profile Map.empty [fixture_card_a, fixture_card_b] = Some 49"
proof -
  have bp: "best_portfolio fixture_result = Some [fixture_card_a]"
    by (simp add: fixture_result_def)
  have ok: "limit_ok (Some 2)" by (simp add: limit_ok_def)
  let ?cat = "[fixture_card_a, fixture_card_b, plain_card]"
  have eq: "cards_to_consider ?cat fixture_profile (Some 2) True True =
      prefiltered ?cat fixture_profile (Some 2) True True"
    by (rule cards_to_consider_prefiltered [OF ok])
  have pre: "prefiltered ?cat fixture_profile (Some 2) True True =
      [fixture_card_a, fixture_card_b]"
    using eq fixture_candidates by simp
  from find_best_portfolio_result [OF fixture_search bp]
  have th: "1 \<le> length [fixture_card_a] \<and> int (length [fixture_card_a]) \<le> 2 \<and>
      set [fixture_card_a] \<subseteq> set (cards_to_consider ?cat fixture_profile (Some 2) True True)"
    by blast
  from th fixture_search bp eq pre fixture_subsets fixture_nets(1,3)
  show ?thesis by blast
qed

text \<open>
  C6. With \<open>include_rebates = False\<close> the search hands the evaluator an empty usage state,
  in which every flat rebate defaults to used: the flat rebate below, which the user
  switched off, then contributes its full 100 (net value 394, entry \<open>used = 100\<close>,
  \<open>applied = True\<close>), while with \<open>include_rebates = True\<close> it contributes 0 (net
  value 294).
\<close>

theorem include_rebates_false_counts_flat_rebates:
  "find_best_portfolio [credit_card] default_profile credit_switched_off (Some 16) (Some 4)
     False True =
     Inr \<lparr>best_val = 394, best_portfolio = Some [credit_card],
          best_assignment = credit_assignment,
          best_details = [(''Credit'', [\<lparr>idx = 0, description = ''Flat Rebate'',
             is_category = False, used = 100, amount = 100, applied = True\<rparr>])],
          best_rewards = 294, best_fees = 0\<rparr> \<and>
   find_best_portfolio [credit_card] default_profile credit_switched_off (Some 16) (Some 4)
     True True =
     Inr \<lparr>best_val = 294, best_portfolio = Some [credit_card],
          best_assignment = credit_assignment,
          best_details = [(''Credit'', [\<lparr>idx = 0, description = ''Flat Rebate'',
             is_category = False, used = 0, amount = 100, applied = False\<rparr>])],
          best_rewards = 294, best_fees = 0\<rparr>"
  by (simp add: search_defs evaluate_defs eval_defs credit_card_def credit_switched_off_def
        default_profile_def credit_assignment_def upt_conv_Cons eval_nat_numeral)

text \<open>
  C7, as stated, fails: on an empty catalog, and on a non-empty catalog with
  \<open>max_portfolio_size = 0\<close>, \<open>find_best_portfolio\<close> does not fail; it returns the
  sentinel result, with no portfolio and the value \<open>-1e12\<close>.
\<close>

theorem find_best_portfolio_sentinel_counterexample:
  "find_best_portfolio [] default_profile Map.empty (Some 16) (Some 4) True True =
     Inr \<lparr>best_val = - (10 ^ 12), best_portfolio = None, best_assignment = [],
          best_details = [], best_rewards = 0, best_fees = 0\<rparr> \<and>
   find_best_portfolio [plain_card] default_profile Map.empty (Some 16) (Some 0) True True =
     Inr \<lparr>best_val = - (10 ^ 12), best_portfolio = None, best_assignment = [],
          best_details = [], best_rewards = 0, best_fees = 0\<rparr>"
  using empty_catalog_search zero_size_search by simp

text \<open>
  C7, amended. When the catalog is empty or \<open>max_portfolio_size\<close> is zero or negative,
  \<open>find_best_portfolio\<close> returns the sentinel result (no portfolio, value \<open>-1e12\<close>, empty
  assignment and ledger, rewards and fees 0) instead of failing. Whenever it returns, it
  returns no portfolio exactly when no enumerated subset has a net value above \<open>-1e12\<close>
  (in particular when no subset is enumerated); in every other case it returns a
  portfolio.
\<close>

theorem find_best_portfolio_sentinel:
  "(catalog = [] \<or> (\<exists>m. mps = Some m \<and> m \<le> 0) \<longrightarrow>
      find_best_portfolio catalog sp usage max_cards mps ir io = Inr initial_search_state) \<and>
   (\<forall>st. find_best_portfolio catalog sp usage max_cards mps ir io = Inr st \<longrightarrow>
      (best_portfolio st = None) =
        list_all (net_at_most sp (search_usage usage ir) (- (10 ^ 12)))
          (enumerate_subsets (cards_to_consider catalog sp max_cards ir io) mps))"
proof (intro conjI impI allI)
  assume "catalog = [] \<or> (\<exists>m. mps = Some m \<and> m \<le> 0)"
  then have "enumerate_subsets (cards_to_consider catalog sp max_cards ir io) mps = []"
    by (auto simp: enumerate_subsets_def max_r_def cards_to_consider_def py_take_def Let_def
          split: option.splits)
  then show "find_best_portfolio catalog sp usage max_cards mps ir io = Inr initial_search_state"
    by (simp add: find_best_portfolio_search)
next
  fix st
  let ?subs = "enumerate_subsets (cards_to_consider catalog sp max_cards ir io) mps"
  let ?u = "search_usage usage ir"
  assume "find_best_portfolio catalog sp usage max_cards mps ir io = Inr st"
  then have run: "search_loop ?subs sp ?u initial_search_state = Inr st"
    by (simp add: find_best_portfolio_search)
  note res = search_loop_result [OF run]
  have init: "best_val initial_search_state = - (10 ^ 12)"
      "best_portfolio initial_search_state = None"
    by (simp_all add: initial_search_state_def)
  show "(best_portfolio st = None) = list_all (net_at_most sp ?u (- (10 ^ 12))) ?subs"
  proof (cases "st = initial_search_state")
    case True
    with res init show ?thesis by simp
  next
    case False
    with res obtain pre p post where d: "?subs = pre @ p # post" and
      bp: "best_portfolio st = Some p" and n: "portfolio_net sp ?u p = Some (best_val st)" and
      lt: "best_val initial_search_state < best_val st"
      by auto
    from n lt init have "\<not> net_at_most sp ?u (- (10 ^ 12)) p"
      by (simp add: net_at_most_def)
    with d have "\<not> list_all (net_at_most sp ?u (- (10 ^ 12))) ?subs" by simp
    with bp show ?thesis by simp
  qed
qed

theorem find_best_portfolio_sentinel_witness:
  "find_best_portfolio [] default_profile Map.empty (Some 16) (Some 4) True True =
     Inr initial_search_state \<and>
   find_best_portfolio [plain_card] default_profile Map.empty (Some 16) (Some 0) True True =
     Inr initial_search_state \<and>
   find_best_portfolio [fixture_card_a, fixture_card_b, plain_card] fixture_profile Map.empty
     (Some 2) (Some 2) True True = Inr fixture_result \<and>
   best_portfolio fixture_result \<noteq> None \<and>
   \<not> list_all (net_at_most fixture_profile (search_usage Map.empty True) (- (10 ^ 12)))
       (enumerate_subsets
          (cards_to_consider [fixture_card_a, fixture_card_b, plain_card] fixture_profile
             (Some 2) True True) (Some 2))"
proof -
  have bp: "best_portfolio fixture_result \<noteq> None" by (simp add: fixture_result_def)
  from find_best_portfolio_sentinel [of "[]" "Some 4" default_profile Map.empty "Some 16" True True]
  have a: "find_best_portfolio [] default_profile Map.empty (Some 16) (Some 4) True True =
      Inr initial_search_state"
    by simp
  from find_best_portfolio_sentinel [of "[plain_card]" "Some 0" default_profile Map.empty
      "Some 16" True True]
  have b: "find_best_portfolio [plain_card] default_profile Map.empty (Some 16) (Some 0) True True =
      Inr initial_search_state"
    by simp
  from find_best_portfolio_sentinel [of "[fixture_card_a, fixture_card_b, plain_card]" "Some 2"
      fixture_profile Map.empty "Some 2" True True] fixture_search bp
  have c: "\<not> list_all (net_at_most fixture_profile (search_usage Map.empty True) (- (10 ^ 12)))
       (enumerate_subsets
          (cards_to_consider [fixture_card_a, fixture_card_b, plain_card] fixture_profile
             (Some 2) True True) (Some 2))"
    by simp
  from a b c fixture_search bp show ?thesis by simp
qed

end
